theory Spec2Isabelle
  imports Main "HOL-Library.Signed_Division" "HOL-Library.Word"
begin

section \<open>Values of the host language\<close>

text \<open>
  The module \<^verbatim>\<open>src/utils/num.ts\<close> converts between numbers, big integers and strings.
  Strings are lists of code units; a \<^typ>\<open>char\<close> is a code unit below 256, so the model
  covers exactly the strings whose code units all lie in that range (which includes every
  string either pattern of the module accepts).

  A \<^verbatim>\<open>number\<close> is an IEEE double. The only operation the module applies to a number
  is \<^verbatim>\<open>BigInt(n)\<close>, which returns the exact value of an integral double and throws for
  every other one (a fraction, an infinity, NaN). \<open>Integral i\<close> is the integral number of
  value \<open>i\<close>; every integral double is some \<open>Integral i\<close>, so a statement about all
  \<open>i\<close> covers them all.
\<close>

datatype js_number = Integral int | NonIntegral

text \<open>\<^verbatim>\<open>type BigNumberish = string | number | bigint\<close>\<close>

datatype BigNumberish = Number js_number | BigInt int | String string

text \<open>A value of type \<^verbatim>\<open>unknown\<close>, as far as \<^verbatim>\<open>typeof\<close> tells values apart.\<close>

datatype js_value = VNumber js_number | VBigInt int | VString string | VBoolean bool | VOther

fun of_BigNumberish :: "BigNumberish \<Rightarrow> js_value" where
  "of_BigNumberish (Number n) = VNumber n"
| "of_BigNumberish (BigInt i) = VBigInt i"
| "of_BigNumberish (String s) = VString s"

text \<open>
  What a call can throw: the \<^verbatim>\<open>SyntaxError\<close> and \<^verbatim>\<open>RangeError\<close> of the built-in
  \<^verbatim>\<open>BigInt\<close>, and a plain \<^verbatim>\<open>Error\<close> with its message.
\<close>

datatype js_error = SyntaxError | RangeError | Error string

section \<open>Built-in string and big-integer operations\<close>

subsection \<open>Character classes\<close>

definition is_dec_digit :: "char \<Rightarrow> bool" where
  "is_dec_digit c = (let n = (of_char c :: nat) in 48 \<le> n \<and> n \<le> 57)"

definition is_lower_hex_digit :: "char \<Rightarrow> bool" where
  "is_lower_hex_digit c = (let n = (of_char c :: nat) in (48 \<le> n \<and> n \<le> 57) \<or> (97 \<le> n \<and> n \<le> 102))"

text \<open>The class \<^verbatim>\<open>[0-9a-f]\<close> under the flag \<^verbatim>\<open>i\<close>.\<close>

definition is_hex_digit :: "char \<Rightarrow> bool" where
  "is_hex_digit c = (let n = (of_char c :: nat) in
     (48 \<le> n \<and> n \<le> 57) \<or> (97 \<le> n \<and> n \<le> 102) \<or> (65 \<le> n \<and> n \<le> 70))"

text \<open>
  \<^verbatim>\<open>StrWhiteSpaceChar\<close> below code unit 256: TAB, LF, VT, FF, CR, SP and NBSP.
\<close>

definition is_whitespace :: "char \<Rightarrow> bool" where
  "is_whitespace c = (let n = (of_char c :: nat) in (9 \<le> n \<and> n \<le> 13) \<or> n = 32 \<or> n = 160)"

subsection \<open>\<^verbatim>\<open>String.prototype.toLowerCase\<close>, \<^verbatim>\<open>padStart\<close>\<close>

text \<open>
  The upper-case letters below 256 are A-Z and the Latin-1 letters 192..222 except the
  multiplication sign 215; each has its lower-case form 32 code units higher.
\<close>

definition toLowerCase_char :: "char \<Rightarrow> char" where
  "toLowerCase_char c = (let n = (of_char c :: nat) in
     if (65 \<le> n \<and> n \<le> 90) \<or> (192 \<le> n \<and> n \<le> 222 \<and> n \<noteq> 215) then char_of (n + 32) else c)"

definition toLowerCase :: "string \<Rightarrow> string" where
  "toLowerCase s = map toLowerCase_char s"

definition padStart :: "nat \<Rightarrow> string \<Rightarrow> string \<Rightarrow> string" where
  "padStart maxLength fillString s =
     (if maxLength \<le> length s \<or> fillString = [] then s
      else take (maxLength - length s) (concat (replicate (maxLength - length s) fillString)) @ s)"

subsection \<open>\<^verbatim>\<open>BigInt.prototype.toString(radix)\<close>\<close>

text \<open>The digit of value \<open>d\<close>, from \<^verbatim>\<open>0-9a-z\<close>.\<close>

definition digit_char :: "nat \<Rightarrow> char" where
  "digit_char d = (if d < 10 then char_of (48 + d) else char_of (87 + d))"

text \<open>
  The digits of a natural number, most significant first. The module calls it with the
  radices 16 and 10 only; a radix below 2 is cut off to keep the function total.
\<close>

function to_digits :: "nat \<Rightarrow> nat \<Rightarrow> string" where
  "to_digits radix n =
     (if radix < 2 \<or> n < radix then [digit_char n]
      else to_digits radix (n div radix) @ [digit_char (n mod radix)])"
  by pat_completeness auto
termination
  by (relation "measure (\<lambda>(radix, n). n)") auto

declare to_digits.simps [simp del]

definition bigint_toString :: "nat \<Rightarrow> int \<Rightarrow> string" where
  "bigint_toString radix x =
     (if x < 0 then CHR ''-'' # to_digits radix (nat (- x)) else to_digits radix (nat x))"

subsection \<open>\<^verbatim>\<open>BigInt(value)\<close>\<close>

definition digit_value :: "char \<Rightarrow> nat option" where
  "digit_value c = (let n = (of_char c :: nat) in
     if 48 \<le> n \<and> n \<le> 57 then Some (n - 48)
     else if 97 \<le> n \<and> n \<le> 122 then Some (n - 87)
     else if 65 \<le> n \<and> n \<le> 90 then Some (n - 55)
     else None)"

fun parse_digits :: "nat \<Rightarrow> nat \<Rightarrow> string \<Rightarrow> nat option" where
  "parse_digits radix acc [] = Some acc"
| "parse_digits radix acc (c # cs) =
     (case digit_value c of
        None \<Rightarrow> None
      | Some d \<Rightarrow> if d < radix then parse_digits radix (acc * radix + d) cs else None)"

text \<open>One or more digits of the radix: the value; anything else: no value.\<close>

definition parse_nat :: "nat \<Rightarrow> string \<Rightarrow> nat option" where
  "parse_nat radix s = (if s = [] then None else parse_digits radix 0 s)"

definition trim :: "string \<Rightarrow> string" where
  "trim s = rev (dropWhile is_whitespace (rev (dropWhile is_whitespace s)))"

text \<open>A decimal literal with an optional sign.\<close>

fun signed_decimal :: "string \<Rightarrow> int option" where
  "signed_decimal (c # cs) =
     (if c = CHR ''+'' then map_option int (parse_nat 10 cs)
      else if c = CHR ''-'' then map_option (\<lambda>n. - int n) (parse_nat 10 cs)
      else map_option int (parse_nat 10 (c # cs)))"
| "signed_decimal [] = None"

text \<open>
  \<^verbatim>\<open>StringToBigInt\<close>: surrounding white space is dropped; the empty string is 0; a
  prefix \<^verbatim>\<open>0x\<close>, \<^verbatim>\<open>0o\<close> or \<^verbatim>\<open>0b\<close> (either case) selects the radix and needs a digit
  after it and admits no sign; everything else is a signed decimal literal.
\<close>

fun StringToBigInt_trimmed :: "string \<Rightarrow> int option" where
  "StringToBigInt_trimmed [] = Some 0"
| "StringToBigInt_trimmed (c0 # c1 # rest) =
     (if c0 = CHR ''0'' \<and> (c1 = CHR ''x'' \<or> c1 = CHR ''X'') then map_option int (parse_nat 16 rest)
      else if c0 = CHR ''0'' \<and> (c1 = CHR ''o'' \<or> c1 = CHR ''O'') then map_option int (parse_nat 8 rest)
      else if c0 = CHR ''0'' \<and> (c1 = CHR ''b'' \<or> c1 = CHR ''B'') then map_option int (parse_nat 2 rest)
      else signed_decimal (c0 # c1 # rest))"
| "StringToBigInt_trimmed [c] = signed_decimal [c]"

definition StringToBigInt :: "string \<Rightarrow> int option" where
  "StringToBigInt str = StringToBigInt_trimmed (trim str)"

text \<open>
  \<^verbatim>\<open>BigInt(value)\<close>: a number that is not integral throws a \<^verbatim>\<open>RangeError\<close>, a
  string that is no integer literal throws a \<^verbatim>\<open>SyntaxError\<close>.
\<close>

fun BigInt_of :: "BigNumberish \<Rightarrow> js_error + int" where
  "BigInt_of (Number (Integral i)) = Inr i"
| "BigInt_of (Number NonIntegral) = Inl RangeError"
| "BigInt_of (BigInt i) = Inr i"
| "BigInt_of (String s) = (case StringToBigInt s of None \<Rightarrow> Inl SyntaxError | Some i \<Rightarrow> Inr i)"

text \<open>Division of big integers rounds toward zero and throws on a zero divisor.\<close>

definition bigint_divide :: "int \<Rightarrow> int \<Rightarrow> js_error + int" where
  "bigint_divide x y = (if y = 0 then Inl RangeError else Inr (x sdiv y))"

section \<open>Collaborators of the module\<close>

text \<open>
  Modelled from the spec: \<^verbatim>\<open>removeHexPrefix\<close> of \<^verbatim>\<open>./encode\<close>, which is not among the
  sources. The spec counts the digits of a hex string after its prefix and has the prefix
  match in either case; so one leading \<^verbatim>\<open>0x\<close> or \<^verbatim>\<open>0X\<close> is dropped, and a string without
  it is returned as it is.
\<close>

fun removeHexPrefix :: "string \<Rightarrow> string" where
  "removeHexPrefix (c0 # c1 # rest) =
     (if c0 = CHR ''0'' \<and> (c1 = CHR ''x'' \<or> c1 = CHR ''X'') then rest else c0 # c1 # rest)"
| "removeHexPrefix s = s"

text \<open>
  Modelled from the spec: \<^verbatim>\<open>addHexPrefix\<close> of \<^verbatim>\<open>./encode\<close>, which is not among the
  sources. The spec has it add the prefix if it is absent: \<^verbatim>\<open>0x\<close> is put in front of the
  string without its prefix.
\<close>

definition addHexPrefix :: "string \<Rightarrow> string" where
  "addHexPrefix hex = ''0x'' @ removeHexPrefix hex"

text \<open>
  Modelled from the spec: \<^verbatim>\<open>assert\<close> of \<^verbatim>\<open>./assert\<close>, which is not among the sources:
  a failed assertion throws an error that carries the message.
\<close>

definition assert :: "bool \<Rightarrow> string \<Rightarrow> js_error + unit" where
  "assert condition message = (if condition then Inr () else Inl (Error message))"

text \<open>
  \<^verbatim>\<open>hexToBytes\<close> of the library \<^verbatim>\<open>@noble/curves\<close>: a string of an even number of hex
  digits is decoded pair by pair; a string of odd length and a string with another
  character throw. The messages are cut to their fixed first words.
\<close>

definition asciiToBase16 :: "char \<Rightarrow> nat option" where
  "asciiToBase16 c = (let n = (of_char c :: nat) in
     if 48 \<le> n \<and> n \<le> 57 then Some (n - 48)
     else if 65 \<le> n \<and> n \<le> 70 then Some (n - 55)
     else if 97 \<le> n \<and> n \<le> 102 then Some (n - 87)
     else None)"

fun decode_pairs :: "string \<Rightarrow> 8 word list option" where
  "decode_pairs [] = Some []"
| "decode_pairs (a # b # rest) =
     (case (asciiToBase16 a, asciiToBase16 b) of
        (Some n1, Some n2) \<Rightarrow> map_option ((#) (of_nat (n1 * 16 + n2))) (decode_pairs rest)
      | _ \<Rightarrow> None)"
| "decode_pairs [a] = None"

definition hexToBytesNoble :: "string \<Rightarrow> js_error + 8 word list" where
  "hexToBytesNoble hex =
     (if length hex mod 2 \<noteq> 0 then Inl (Error ''padded hex string expected'')
      else case decode_pairs hex of
        None \<Rightarrow> Inl (Error ''hex string expected'')
      | Some bytes \<Rightarrow> Inr bytes)"

section \<open>The module \<^verbatim>\<open>num.ts\<close>\<close>

text \<open>\<^verbatim>\<open>/^0x[0-9a-f]*$/i.test(hex)\<close>\<close>

fun isHex :: "string \<Rightarrow> bool" where
  "isHex (c0 # c1 # rest) =
     (c0 = CHR ''0'' \<and> (c1 = CHR ''x'' \<or> c1 = CHR ''X'') \<and> list_all is_hex_digit rest)"
| "isHex s = False"

definition toBigInt :: "BigNumberish \<Rightarrow> js_error + int" where
  "toBigInt v = BigInt_of v"

fun isBigInt :: "js_value \<Rightarrow> bool" where
  "isBigInt (VBigInt i) = True"
| "isBigInt v = False"

definition toHex :: "BigNumberish \<Rightarrow> js_error + string" where
  "toHex v =
     (case toBigInt v of
        Inl e \<Rightarrow> Inl e
      | Inr n \<Rightarrow> Inr (addHexPrefix (bigint_toString 16 n)))"

definition toHexString :: "BigNumberish \<Rightarrow> js_error + string" where
  "toHexString = toHex"

definition toStorageKey :: "BigNumberish \<Rightarrow> js_error + string" where
  "toStorageKey number =
     (case toBigInt number of
        Inl e \<Rightarrow> Inl e
      | Inr n \<Rightarrow> Inr (addHexPrefix (padStart 64 ''0'' (bigint_toString 16 n))))"

definition hexToDecimalString :: "string \<Rightarrow> js_error + string" where
  "hexToDecimalString hex =
     (case BigInt_of (String (addHexPrefix hex)) of
        Inl e \<Rightarrow> Inl e
      | Inr n \<Rightarrow> Inr (bigint_toString 10 n))"

text \<open>
  \<^verbatim>\<open>s.replace(/^(0x)0+/, '$1')\<close>: a string that starts with \<^verbatim>\<open>0x0\<close> loses every
  \<^verbatim>\<open>0\<close> that follows the prefix directly; any other string is unchanged.
\<close>

fun replace_leading_zeros :: "string \<Rightarrow> string" where
  "replace_leading_zeros (c0 # c1 # c2 # rest) =
     (if c0 = CHR ''0'' \<and> c1 = CHR ''x'' \<and> c2 = CHR ''0''
      then ''0x'' @ dropWhile (\<lambda>c. c = CHR ''0'') rest
      else c0 # c1 # c2 # rest)"
| "replace_leading_zeros s = s"

definition cleanHex :: "string \<Rightarrow> string" where
  "cleanHex hex = replace_leading_zeros (toLowerCase hex)"

text \<open>The parameter \<^verbatim>\<open>inputName\<close> has the default \<^verbatim>\<open>''\<close>: \<open>None\<close> is a call without it.\<close>

definition assertInRange ::
  "BigNumberish \<Rightarrow> BigNumberish \<Rightarrow> BigNumberish \<Rightarrow> string option \<Rightarrow> js_error + unit" where
  "assertInRange input lowerBound upperBound inputName_opt =
     (let inputName = (case inputName_opt of None \<Rightarrow> [] | Some l \<Rightarrow> l);
          messageSuffix =
            (if inputName = [] then ''invalid length'' else ''invalid '' @ inputName @ '' length'')
      in case BigInt_of input of
           Inl e \<Rightarrow> Inl e
         | Inr inputBigInt \<Rightarrow>
             (case BigInt_of lowerBound of
                Inl e \<Rightarrow> Inl e
              | Inr lowerBoundBigInt \<Rightarrow>
                  (case BigInt_of upperBound of
                     Inl e \<Rightarrow> Inl e
                   | Inr upperBoundBigInt \<Rightarrow>
                       assert (inputBigInt \<ge> lowerBoundBigInt \<and> inputBigInt \<le> upperBoundBigInt)
                         (''Message not signable, '' @ messageSuffix @ ''.''))))"

text \<open>\<^verbatim>\<open>/^\d+$/.test(str)\<close>\<close>

definition isStringWholeNumber :: "string \<Rightarrow> bool" where
  "isStringWholeNumber str = (str \<noteq> [] \<and> list_all is_dec_digit str)"

definition getDecimalString :: "string \<Rightarrow> js_error + string" where
  "getDecimalString str =
     (if isHex str then hexToDecimalString str
      else if isStringWholeNumber str then Inr str
      else Inl (Error (str @ '' needs to be a hex-string or whole-number-string'')))"

definition getHexString :: "string \<Rightarrow> js_error + string" where
  "getHexString str =
     (if isHex str then Inr str
      else if isStringWholeNumber str then toHexString (String str)
      else Inl (Error (str @ '' needs to be a hex-string or whole-number-string'')))"

definition hexToBytes :: "string \<Rightarrow> js_error + 8 word list" where
  "hexToBytes str =
     (if \<not> isHex str then Inl (Error (str @ '' needs to be a hex-string''))
      else
        let adaptedValue = removeHexPrefix str;
            adaptedValue = (if length adaptedValue mod 2 \<noteq> 0 then CHR ''0'' # adaptedValue
                            else adaptedValue)
        in hexToBytesNoble adaptedValue)"

definition addPercent :: "BigNumberish \<Rightarrow> js_number \<Rightarrow> js_error + int" where
  "addPercent number percent =
     (case BigInt_of number of
        Inl e \<Rightarrow> Inl e
      | Inr bigIntNum \<Rightarrow>
          (case BigInt_of (Number percent) of
             Inl e \<Rightarrow> Inl e
           | Inr p \<Rightarrow>
               (case bigint_divide (bigIntNum * p) 100 of
                  Inl e \<Rightarrow> Inl e
                | Inr q \<Rightarrow> Inr (bigIntNum + q))))"

fun isNumber :: "js_value \<Rightarrow> bool" where
  "isNumber (VNumber n) = True"
| "isNumber v = False"

fun isBoolean :: "js_value \<Rightarrow> bool" where
  "isBoolean (VBoolean b) = True"
| "isBoolean v = False"

fun isBigNumberish :: "js_value \<Rightarrow> bool" where
  "isBigNumberish (VString s) =
     (isNumber (VString s) \<or> isBigInt (VString s) \<or> (isHex s \<or> isStringWholeNumber s))"
| "isBigNumberish v = (isNumber v \<or> isBigInt v)"

section \<open>Notions used to state the properties\<close>

text \<open>
  A canonical hex string: the prefix \<^verbatim>\<open>0x\<close>, then one or more lower-case hex digits with
  no leading \<^verbatim>\<open>0\<close> except for the single digit \<^verbatim>\<open>0\<close>.
\<close>

fun canonical_hex :: "string \<Rightarrow> bool" where
  "canonical_hex (c0 # c1 # ds) =
     (c0 = CHR ''0'' \<and> c1 = CHR ''x'' \<and> ds \<noteq> [] \<and> list_all is_lower_hex_digit ds \<and>
      (hd ds = CHR ''0'' \<longrightarrow> ds = ''0''))"
| "canonical_hex s = False"

text \<open>A decimal string without its leading zeros; the string of zeros only becomes \<^verbatim>\<open>0\<close>.\<close>

definition strip_leading_zeros :: "string \<Rightarrow> string" where
  "strip_leading_zeros d =
     (let t = dropWhile (\<lambda>c. c = CHR ''0'') d in if t = [] then ''0'' else t)"

text \<open>The number a byte sequence denotes, most significant byte first.\<close>

definition bytes_value :: "8 word list \<Rightarrow> nat" where
  "bytes_value bytes = foldl (\<lambda>a b. a * 256 + unat b) 0 bytes"

text \<open>
  The digits that \<^verbatim>\<open>hexToBytes\<close> is to decode: the digits after the prefix, with one \<^verbatim>\<open>0\<close>
  in front of them when their number is odd.
\<close>

definition padded_digits :: "string \<Rightarrow> string" where
  "padded_digits str =
     (if odd (length (drop 2 str)) then CHR ''0'' # drop 2 str else drop 2 str)"

section \<open>Digits: printing and parsing\<close>

lemma of_char_digit_char: "d < 36 \<Longrightarrow> (of_char (digit_char d) :: nat) = (if d < 10 then 48 + d else 87 + d)"
  by (simp add: digit_char_def)

lemma digit_value_digit_char: "d < 36 \<Longrightarrow> digit_value (digit_char d) = Some d"
  by (simp add: digit_value_def of_char_digit_char Let_def)

lemma is_lower_hex_digit_digit_char: "d < 16 \<Longrightarrow> is_lower_hex_digit (digit_char d)"
  by (simp add: is_lower_hex_digit_def of_char_digit_char Let_def)

lemma digit_char_eq_zero_iff: "d < 36 \<Longrightarrow> digit_char d = CHR ''0'' \<longleftrightarrow> d = 0"
proof -
  assume d: "d < 36"
  have "digit_char d = CHR ''0'' \<longleftrightarrow> (of_char (digit_char d) :: nat) = of_char (CHR ''0'')"
    by (simp only: of_char_eq_iff)
  also have "\<dots> \<longleftrightarrow> d = 0" using d by (simp add: of_char_digit_char)
  finally show ?thesis .
qed

lemma to_digits_small: "n < radix \<Longrightarrow> to_digits radix n = [digit_char n]"
  by (simp add: to_digits.simps)

lemma to_digits_step:
  "2 \<le> radix \<Longrightarrow> radix \<le> n \<Longrightarrow>
   to_digits radix n = to_digits radix (n div radix) @ [digit_char (n mod radix)]"
  by (subst to_digits.simps) simp

lemma to_digits_not_Nil: "to_digits radix n \<noteq> []"
  by (subst to_digits.simps) simp

lemma to_digits_hex_digits:
  "2 \<le> radix \<Longrightarrow> radix \<le> 16 \<Longrightarrow> list_all is_lower_hex_digit (to_digits radix n)"
proof (induction radix n rule: to_digits.induct)
  case (1 radix n)
  show ?case
  proof (cases "n < radix")
    case True
    with 1 show ?thesis by (simp add: to_digits_small is_lower_hex_digit_digit_char)
  next
    case False
    have "n mod radix < 16" using 1(2,3)
      by (meson less_le_trans mod_less_divisor less_le_trans[of 0 2] zero_less_numeral)
    with 1 False show ?thesis
      by (simp add: to_digits_step is_lower_hex_digit_digit_char)
  qed
qed

lemma parse_digits_append:
  "parse_digits radix acc (xs @ ys) =
     (case parse_digits radix acc xs of None \<Rightarrow> None | Some a \<Rightarrow> parse_digits radix a ys)"
  by (induction xs arbitrary: acc) (auto split: option.splits)

lemma parse_digits_to_digits:
  "2 \<le> radix \<Longrightarrow> radix \<le> 36 \<Longrightarrow> parse_digits radix 0 (to_digits radix n) = Some n"
proof (induction radix n rule: to_digits.induct)
  case (1 radix n)
  show ?case
  proof (cases "n < radix")
    case True
    with 1 show ?thesis by (simp add: to_digits_small digit_value_digit_char)
  next
    case False
    have m: "n mod radix < radix" using 1(2) by simp
    then have "n mod radix < 36" using 1(3) by linarith
    with 1 False m show ?thesis
      by (simp add: to_digits_step parse_digits_append digit_value_digit_char)
  qed
qed

lemma length_to_digits:
  "2 \<le> radix \<Longrightarrow> n < radix ^ k \<Longrightarrow> 0 < k \<Longrightarrow> length (to_digits radix n) \<le> k"
proof (induction radix n arbitrary: k rule: to_digits.induct)
  case (1 radix n)
  show ?case
  proof (cases "n < radix")
    case True
    with 1 show ?thesis by (simp add: to_digits_small)
  next
    case False
    obtain j where k: "k = Suc j" using 1(4) by (cases k) auto
    have "j \<noteq> 0" using False 1(3) k by (cases j) auto
    moreover have "n div radix < radix ^ j" using 1(3) k 1(2)
      by (simp add: less_mult_imp_div_less mult.commute)
    ultimately have "length (to_digits radix (n div radix)) \<le> j"
      using 1(1)[of j] 1(2) False by simp
    with 1 False k show ?thesis by (simp add: to_digits_step)
  qed
qed

lemma hd_to_digits:
  "2 \<le> radix \<Longrightarrow> radix \<le> 36 \<Longrightarrow> hd (to_digits radix n) = CHR ''0'' \<Longrightarrow> n = 0"
proof (induction radix n rule: to_digits.induct)
  case (1 radix n)
  show ?case
  proof (cases "n < radix")
    case True
    with 1 show ?thesis by (simp add: to_digits_small digit_char_eq_zero_iff)
  next
    case False
    have "hd (to_digits radix (n div radix)) = CHR ''0''"
      using 1(2,4) False by (simp add: to_digits_step to_digits_not_Nil)
    then have "n div radix = 0" using 1 False by simp
    then show ?thesis using False 1(2) by (simp add: div_eq_0_iff)
  qed
qed

section \<open>Parsing what the module prints\<close>

lemma trim_id: "s \<noteq> [] \<Longrightarrow> \<not> is_whitespace (hd s) \<Longrightarrow> \<not> is_whitespace (last s) \<Longrightarrow> trim s = s"
proof -
  assume s: "s \<noteq> []" and h: "\<not> is_whitespace (hd s)" and l: "\<not> is_whitespace (last s)"
  have 1: "dropWhile is_whitespace s = s" using s h by (cases s) auto
  obtain xs x where sx: "s = xs @ [x]" using s by (cases s rule: rev_cases) auto
  have 2: "dropWhile is_whitespace (rev s) = rev s" using l by (simp add: sx)
  show ?thesis by (simp add: trim_def 1 2)
qed

lemma hex_digit_not_whitespace: "is_hex_digit c \<Longrightarrow> \<not> is_whitespace c"
  by (auto simp: is_hex_digit_def is_whitespace_def Let_def)

lemma dec_digit_is_hex_digit: "is_dec_digit c \<Longrightarrow> is_hex_digit c"
  by (auto simp: is_hex_digit_def is_dec_digit_def Let_def)

lemma lower_hex_digit_is_hex_digit: "is_lower_hex_digit c \<Longrightarrow> is_hex_digit c"
  by (auto simp: is_hex_digit_def is_lower_hex_digit_def Let_def)

lemma hex_digit_not_letter:
  "is_hex_digit c \<Longrightarrow> c \<notin> {CHR ''x'', CHR ''X'', CHR ''o'', CHR ''O'', CHR ''+'', CHR ''-''}"
  by (auto simp: is_hex_digit_def Let_def)

lemma dec_digit_not_b: "is_dec_digit c \<Longrightarrow> c \<noteq> CHR ''b'' \<and> c \<noteq> CHR ''B''"
  by (auto simp: is_dec_digit_def Let_def)

lemma digit_value_hex: "is_hex_digit c \<Longrightarrow> \<exists>d<16. digit_value c = Some d"
  by (auto simp: is_hex_digit_def digit_value_def Let_def)

lemma digit_value_dec: "is_dec_digit c \<Longrightarrow> \<exists>d<10. digit_value c = Some d"
  by (auto simp: is_dec_digit_def digit_value_def Let_def)

lemma parse_digits_hex: "list_all is_hex_digit s \<Longrightarrow> \<exists>n. parse_digits 16 acc s = Some n"
proof (induction s arbitrary: acc)
  case Nil
  show ?case by simp
next
  case (Cons c s)
  then obtain d where "d < 16" "digit_value c = Some d" using digit_value_hex[of c] by auto
  with Cons show ?case by simp
qed

lemma parse_digits_dec: "list_all is_dec_digit s \<Longrightarrow> \<exists>n. parse_digits 10 acc s = Some n"
proof (induction s arbitrary: acc)
  case Nil
  show ?case by simp
next
  case (Cons c s)
  then obtain d where "d < 10" "digit_value c = Some d" using digit_value_dec[of c] by auto
  with Cons show ?case by simp
qed

lemma removeHexPrefix_digits: "list_all is_hex_digit s \<Longrightarrow> removeHexPrefix s = s"
proof (cases s rule: removeHexPrefix.cases)
  case (1 c0 c1 rest)
  assume "list_all is_hex_digit s"
  with 1 have "is_hex_digit c1" by simp
  then have "c1 \<noteq> CHR ''x'' \<and> c1 \<noteq> CHR ''X''" using hex_digit_not_letter[of c1] by simp
  with 1 show ?thesis by simp
qed simp_all

lemma addHexPrefix_digits: "list_all is_hex_digit s \<Longrightarrow> addHexPrefix s = ''0x'' @ s"
  by (simp add: addHexPrefix_def removeHexPrefix_digits)

lemma removeHexPrefix_isHex: "isHex s \<Longrightarrow> removeHexPrefix s = drop 2 s"
  by (cases s rule: isHex.cases) auto

lemma isHex_digits: "isHex s \<Longrightarrow> list_all is_hex_digit (drop 2 s)"
  by (cases s rule: isHex.cases) auto

lemma addHexPrefix_isHex: "isHex s \<Longrightarrow> addHexPrefix s = ''0x'' @ drop 2 s"
  by (simp add: addHexPrefix_def removeHexPrefix_isHex)

text \<open>\<^verbatim>\<open>BigInt\<close> of a prefixed string of hex digits\<close>

lemma StringToBigInt_hex:
  assumes "list_all is_hex_digit ds"
  shows "StringToBigInt (''0x'' @ ds) = map_option int (parse_nat 16 ds)"
proof -
  have "\<not> is_whitespace (last (''0x'' @ ds))"
  proof (cases "ds = []")
    case True
    then show ?thesis by (simp add: is_whitespace_def)
  next
    case False
    then have "last ds \<in> set ds" by simp
    then have "is_hex_digit (last ds)" using assms by (simp add: list_all_iff)
    then show ?thesis using False by (simp add: hex_digit_not_whitespace)
  qed
  then have "trim (''0x'' @ ds) = ''0x'' @ ds"
    by (intro trim_id) (simp_all add: is_whitespace_def)
  then show ?thesis by (simp add: StringToBigInt_def)
qed

lemma StringToBigInt_whole:
  assumes "isStringWholeNumber d"
  shows "StringToBigInt d = map_option int (parse_digits 10 0 d)"
proof -
  from assms have ne: "d \<noteq> []" and all: "list_all is_dec_digit d"
    by (simp_all add: isStringWholeNumber_def)
  have digit: "is_hex_digit c" if "c \<in> set d" for c
    using that all by (simp add: list_all_iff dec_digit_is_hex_digit)
  have "hd d \<in> set d" "last d \<in> set d" using ne by simp_all
  then have "trim d = d"
    using ne by (intro trim_id) (simp_all add: digit hex_digit_not_whitespace)
  moreover have "StringToBigInt_trimmed d = map_option int (parse_digits 10 0 d)"
  proof (cases d rule: StringToBigInt_trimmed.cases)
    case 1
    with ne show ?thesis by simp
  next
    case (2 c0 c1 rest)
    then have "is_hex_digit c0" "is_hex_digit c1" "is_dec_digit c1" using digit all by simp_all
    then show ?thesis
      using 2 hex_digit_not_letter[of c0] hex_digit_not_letter[of c1] dec_digit_not_b[of c1]
      by (simp add: parse_nat_def)
  next
    case (3 c)
    then have "is_hex_digit c" using digit by simp
    then show ?thesis using 3 hex_digit_not_letter[of c] by (simp add: parse_nat_def)
  qed
  ultimately show ?thesis by (simp add: StringToBigInt_def)
qed

lemma digit_char_digit_value: "is_dec_digit c \<Longrightarrow> digit_value c = Some v \<Longrightarrow> digit_char v = c"
proof -
  assume c: "is_dec_digit c" and v: "digit_value c = Some v"
  have v10: "v < 10" and cv: "48 + v = (of_char c :: nat)"
    using c v by (auto simp: is_dec_digit_def digit_value_def Let_def split: if_splits)
  have "(of_char (digit_char v) :: nat) = 48 + v"
    using of_char_digit_char[of v] v10 by simp
  with cv have "(of_char (digit_char v) :: nat) = of_char c" by (simp only:)
  then show ?thesis by (simp only: of_char_eq_iff)
qed

lemma digit_value_zero_iff: "is_dec_digit c \<Longrightarrow> digit_value c = Some v \<Longrightarrow> v = 0 \<longleftrightarrow> c = CHR ''0''"
proof -
  assume c: "is_dec_digit c" and v: "digit_value c = Some v"
  have "v < 36" using digit_value_dec[OF c] v by auto
  then show ?thesis
    using digit_char_digit_value[OF c v] digit_char_eq_zero_iff[of v] by simp
qed

lemma parse_digits_zero_iff_acc:
  "list_all is_dec_digit d \<Longrightarrow>
   parse_digits 10 acc d = Some 0 \<longleftrightarrow> acc = 0 \<and> (\<forall>c\<in>set d. c = CHR ''0'')"
proof (induction d arbitrary: acc)
  case Nil
  show ?case by simp
next
  case (Cons c d)
  then have c: "is_dec_digit c" and d: "list_all is_dec_digit d" by simp_all
  obtain v where v: "v < 10" "digit_value c = Some v" using digit_value_dec[OF c] by blast
  have "parse_digits 10 acc (c # d) = parse_digits 10 (acc * 10 + v) d" using v by simp
  also have "\<dots> = Some 0 \<longleftrightarrow> acc * 10 + v = 0 \<and> (\<forall>c\<in>set d. c = CHR ''0'')"
    using Cons.IH[OF d] .
  also have "acc * 10 + v = 0 \<longleftrightarrow> acc = 0 \<and> c = CHR ''0''"
    using digit_value_zero_iff[OF c v(2)] by simp
  finally show ?case by auto
qed

lemma parse_digits_zero_iff:
  "list_all is_dec_digit d \<Longrightarrow> parse_digits 10 0 d = Some 0 \<longleftrightarrow> (\<forall>c\<in>set d. c = CHR ''0'')"
  by (simp add: parse_digits_zero_iff_acc)

lemma to_digits_parse_digits:
  "list_all is_dec_digit d \<Longrightarrow> d \<noteq> [] \<Longrightarrow> parse_digits 10 0 d = Some n \<Longrightarrow>
   to_digits 10 n = strip_leading_zeros d"
proof (induction d arbitrary: n rule: rev_induct)
  case Nil
  then show ?case by simp
next
  case (snoc c xs)
  from snoc.prems(1) have xs: "list_all is_dec_digit xs" and c: "is_dec_digit c" by simp_all
  obtain m where m: "parse_digits 10 0 xs = Some m" using parse_digits_dec[OF xs] by blast
  obtain v where v: "v < 10" "digit_value c = Some v" using digit_value_dec[OF c] by blast
  have n: "n = m * 10 + v" using snoc.prems(3) m v by (simp add: parse_digits_append)
  have cv: "digit_char v = c" using c v(2) by (rule digit_char_digit_value)
  show ?case
  proof (cases "m = 0")
    case True
    then have zeros: "\<forall>x\<in>set xs. x = CHR ''0''" using m parse_digits_zero_iff[OF xs] by simp
    then have dw: "dropWhile (\<lambda>c. c = CHR ''0'') xs = []" by simp
    have "to_digits 10 n = [c]" using n True v cv by (simp add: to_digits_small)
    moreover have "strip_leading_zeros (xs @ [c]) = [c]"
      using zeros by (simp add: strip_leading_zeros_def dropWhile_append2)
    ultimately show ?thesis by simp
  next
    case False
    then have ne: "xs \<noteq> []" using m by auto
    have nz: "\<not> (\<forall>x\<in>set xs. x = CHR ''0'')" using False m parse_digits_zero_iff[OF xs] by simp
    then have dw: "dropWhile (\<lambda>c. c = CHR ''0'') xs \<noteq> []" by (simp add: dropWhile_eq_Nil_conv)
    have ih: "to_digits 10 m = strip_leading_zeros xs" using snoc.IH[OF xs ne m] .
    have "10 \<le> n" using False n by simp
    then have "to_digits 10 n = to_digits 10 (n div 10) @ [digit_char (n mod 10)]"
      by (simp add: to_digits_step)
    moreover have "n div 10 = m" "n mod 10 = v" using n v(1) by simp_all
    ultimately have "to_digits 10 n = strip_leading_zeros xs @ [c]" using ih cv by simp
    moreover have "strip_leading_zeros (xs @ [c]) = strip_leading_zeros xs @ [c]"
      using dw nz by (auto simp add: strip_leading_zeros_def dropWhile_append1)
    ultimately show ?thesis by simp
  qed
qed

lemma parse_digits_zeros: "0 < radix \<Longrightarrow> parse_digits radix 0 (replicate k (CHR ''0'')) = Some 0"
  by (induction k) (simp_all add: digit_value_def)

lemma parse_nat_to_digits:
  "2 \<le> radix \<Longrightarrow> radix \<le> 36 \<Longrightarrow> parse_nat radix (to_digits radix n) = Some n"
  by (simp add: parse_nat_def to_digits_not_Nil parse_digits_to_digits)

lemma bigint_toString_nonneg: "0 \<le> n \<Longrightarrow> bigint_toString radix n = to_digits radix (nat n)"
  by (simp add: bigint_toString_def)

lemma padStart_zero:
  "padStart k ''0'' s = replicate (k - length s) (CHR ''0'') @ s"
proof -
  have "take m (concat (replicate m ''0'')) = replicate m (CHR ''0'')" for m
    by (induction m) simp_all
  then show ?thesis by (simp add: padStart_def)
qed

lemma toHex_nonneg:
  assumes "toBigInt v = Inr n" and "0 \<le> n"
  shows "toHex v = Inr (''0x'' @ to_digits 16 (nat n))"
proof -
  have "list_all is_hex_digit (to_digits 16 (nat n))"
    using to_digits_hex_digits[of 16 "nat n"]
    by (simp add: list_all_iff lower_hex_digit_is_hex_digit)
  then show ?thesis
    using assms by (simp add: toHex_def bigint_toString_nonneg addHexPrefix_digits)
qed

lemma toHex_nonneg_canonical:
  assumes "toBigInt v = Inr n" and "0 \<le> n"
  shows "\<exists>h. toHex v = Inr h \<and> canonical_hex h \<and> parse_nat 16 (drop 2 h) = Some (nat n)"
proof -
  let ?ds = "to_digits 16 (nat n)"
  have "list_all is_lower_hex_digit ?ds" by (rule to_digits_hex_digits) simp_all
  moreover have "?ds = ''0''" if "hd ?ds = CHR ''0''"
  proof -
    have "nat n = 0" using that by (intro hd_to_digits[of 16]) simp_all
    then show ?thesis using digit_char_eq_zero_iff[of 0] by (simp add: to_digits_small)
  qed
  ultimately have "canonical_hex (''0x'' @ ?ds)" by (simp add: to_digits_not_Nil)
  moreover have "parse_nat 16 ?ds = Some (nat n)" by (rule parse_nat_to_digits) simp_all
  ultimately show ?thesis using toHex_nonneg[OF assms] by simp
qed

section \<open>Claims about \<^verbatim>\<open>toStorageKey\<close>, \<^verbatim>\<open>toHex\<close> and \<^verbatim>\<open>hexToDecimalString\<close>\<close>

text \<open>
  Claim C1. For every input that \<^verbatim>\<open>toBigInt\<close> turns into an integer \<open>n\<close> with
  \<open>0 \<le> n < 2\<^sup>2\<^sup>5\<^sup>6\<close>, \<^verbatim>\<open>toStorageKey\<close> returns a string of exactly 66 characters:
  the prefix \<^verbatim>\<open>0x\<close> and 64 lower-case hex digits, which are the hex digits of \<open>n\<close> with
  zeros put in front of them, and which denote \<open>n\<close>.
\<close>

theorem toStorageKey_length:
  assumes "toBigInt number = Inr n" and "0 \<le> n" and "n < 2 ^ 256"
  shows "\<exists>key. toStorageKey number = Inr key \<and> length key = 66 \<and> take 2 key = ''0x'' \<and>
           list_all is_lower_hex_digit (drop 2 key) \<and>
           drop 2 key = replicate (64 - length (bigint_toString 16 n)) (CHR ''0'') @ bigint_toString 16 n \<and>
           parse_nat 16 (drop 2 key) = Some (nat n)"
proof -
  let ?ds = "to_digits 16 (nat n)"
  let ?padded = "replicate (64 - length ?ds) (CHR ''0'') @ ?ds"
  have str: "bigint_toString 16 n = ?ds" using assms(2) by (rule bigint_toString_nonneg)
  have "nat n < 2 ^ 256" using assms(2,3) by (simp add: nat_less_iff)
  also have "(2::nat) ^ 256 = 16 ^ 64" by simp
  finally have len: "length ?ds \<le> 64" by (intro length_to_digits) simp_all
  have lower: "list_all is_lower_hex_digit ?ds" by (rule to_digits_hex_digits) simp_all
  have zero: "is_lower_hex_digit (CHR ''0'')" by (simp add: is_lower_hex_digit_def)
  have padded: "list_all is_lower_hex_digit ?padded"
    using lower zero by (auto simp: list_all_iff)
  then have "list_all is_hex_digit ?padded"
    by (simp add: list_all_iff lower_hex_digit_is_hex_digit del: set_replicate)
  then have key: "toStorageKey number = Inr (''0x'' @ ?padded)"
    using assms(1) by (simp add: toStorageKey_def str padStart_zero addHexPrefix_digits)
  have "length (''0x'' @ ?padded) = 66" using len by simp
  moreover have "parse_nat 16 ?padded = Some (nat n)"
    by (simp add: parse_nat_def to_digits_not_Nil parse_digits_append parse_digits_zeros
        parse_digits_to_digits)
  ultimately show ?thesis using key padded str by simp
qed

theorem toStorageKey_length_witness:
  "toBigInt (BigInt 255) = Inr 255 \<and> (0::int) \<le> 255 \<and> (255::int) < 2 ^ 256 \<and>
   toStorageKey (BigInt 255) =
     Inr ''0x00000000000000000000000000000000000000000000000000000000000000ff''"
proof -
  have h: "toBigInt (BigInt 255) = Inr 255" by (simp add: toBigInt_def)
  have ds: "bigint_toString 16 255 = ''ff''" by code_simp
  from toStorageKey_length[OF h] obtain key where
    "toStorageKey (BigInt 255) = Inr key"
    "drop 2 key = replicate (64 - length (bigint_toString 16 255)) (CHR ''0'') @ bigint_toString 16 255"
    "take 2 key = ''0x''"
    by auto
  moreover have "key = take 2 key @ drop 2 key" by simp
  ultimately have "toStorageKey (BigInt 255) = Inr (''0x'' @ replicate 62 (CHR ''0'') @ ''ff'')"
    by (simp add: ds)
  moreover have "replicate 62 (CHR ''0'') = ''00000000000000000000000000000000000000000000000000000000000000''"
    by code_simp
  ultimately show ?thesis using h by simp
qed

text \<open>
  Claim C2, amended. For every input that \<^verbatim>\<open>toBigInt\<close> turns into an integer
  \<open>n \<ge> 0\<close>, \<^verbatim>\<open>toHex\<close> returns a canonical hex string that denotes \<open>n\<close>: the prefix
  \<^verbatim>\<open>0x\<close>, lower-case hex digits, no leading zero digit except the single \<^verbatim>\<open>0\<close> of zero.
  Of a negative input the result has a minus sign after the prefix, and an input that
  \<^verbatim>\<open>toBigInt\<close> rejects makes \<^verbatim>\<open>toHex\<close> throw.
\<close>

theorem toHex_canonical:
  assumes "toBigInt v = Inr n" and "0 \<le> n"
  shows "\<exists>h. toHex v = Inr h \<and> canonical_hex h \<and> parse_nat 16 (drop 2 h) = Some (nat n)"
  using assms by (rule toHex_nonneg_canonical)

theorem toHex_canonical_witness:
  "toBigInt (String ''200'') = Inr 200 \<and> (0::int) \<le> 200 \<and>
   toHex (String ''200'') = Inr ''0xc8'' \<and> canonical_hex ''0xc8''"
proof -
  have h: "toBigInt (String ''200'') = Inr 200" by code_simp
  have v: "toHex (String ''200'') = Inr ''0xc8''" by code_simp
  from toHex_canonical[OF h] have "canonical_hex ''0xc8''" by (simp add: v del: canonical_hex.simps)
  with h v show ?thesis by simp
qed

theorem toHex_negative_counterexample:
  "toHex (Number (Integral (- 255))) = Inr ''0x-ff'' \<and> \<not> canonical_hex ''0x-ff'' \<and>
   toHex (String ''0x'') = Inl SyntaxError"
  by code_simp

text \<open>
  Claim C4. For every string \<open>d\<close> of one or more decimal digits, \<^verbatim>\<open>toHex(d)\<close> succeeds and
  \<^verbatim>\<open>hexToDecimalString\<close> of its result is \<open>d\<close> without its leading zeros.
\<close>

theorem hexToDecimalString_toHex:
  assumes "isStringWholeNumber d"
  shows "\<exists>h. toHex (String d) = Inr h \<and> hexToDecimalString h = Inr (strip_leading_zeros d)"
proof -
  from assms have ne: "d \<noteq> []" and all: "list_all is_dec_digit d"
    by (simp_all add: isStringWholeNumber_def)
  obtain n where n: "parse_digits 10 0 d = Some n" using parse_digits_dec[OF all] by blast
  let ?ds = "to_digits 16 n"
  have "toBigInt (String d) = Inr (int n)"
    by (simp add: toBigInt_def StringToBigInt_whole[OF assms] n)
  then have h: "toHex (String d) = Inr (''0x'' @ ?ds)" using toHex_nonneg[of "String d" "int n"] by simp
  have digits: "list_all is_hex_digit ?ds"
    using to_digits_hex_digits[of 16 n] by (simp add: list_all_iff lower_hex_digit_is_hex_digit)
  have "addHexPrefix (''0x'' @ ?ds) = ''0x'' @ ?ds" by (simp add: addHexPrefix_def)
  moreover have "StringToBigInt (''0x'' @ ?ds) = Some (int n)"
    by (simp only: StringToBigInt_hex[OF digits]) (simp add: parse_nat_to_digits)
  moreover have "bigint_toString 10 (int n) = strip_leading_zeros d"
    using to_digits_parse_digits[OF all ne n] by (simp add: bigint_toString_def)
  ultimately have "hexToDecimalString (''0x'' @ ?ds) = Inr (strip_leading_zeros d)"
    by (simp add: hexToDecimalString_def)
  with h show ?thesis by blast
qed

theorem hexToDecimalString_toHex_witness:
  "isStringWholeNumber ''0026'' \<and> toHex (String ''0026'') = Inr ''0x1a'' \<and>
   hexToDecimalString ''0x1a'' = Inr ''26''"
proof -
  have w: "isStringWholeNumber ''0026''" by code_simp
  have h: "toHex (String ''0026'') = Inr ''0x1a''" by code_simp
  have s: "strip_leading_zeros ''0026'' = ''26''" by code_simp
  from hexToDecimalString_toHex[OF w] have "hexToDecimalString ''0x1a'' = Inr ''26''"
    by (simp add: h s)
  with w h show ?thesis by simp
qed

section \<open>Claims about \<^verbatim>\<open>addPercent\<close> and \<^verbatim>\<open>assertInRange\<close>\<close>

text \<open>
  Claim C3. \<^verbatim>\<open>addPercent(base, percent)\<close> is \<open>base + (base * percent) / 100\<close>, the
  quotient rounded toward zero: its magnitude is the magnitude of \<open>base * percent\<close>
  divided by 100 without the remainder, its sign the sign of \<open>base * percent\<close>. In
  particular \<^verbatim>\<open>addPercent(100, 50)\<close> is 150, \<^verbatim>\<open>addPercent(100, 100)\<close> is 200,
  \<^verbatim>\<open>addPercent(200, -100)\<close> is 0 and \<^verbatim>\<open>addPercent(200, -150)\<close> is -100.
\<close>

theorem addPercent_truncates:
  "(toBigInt number = Inr base \<longrightarrow>
      addPercent number (Integral percent) =
        Inr (base + sgn (base * percent) * (\<bar>base * percent\<bar> div 100))) \<and>
   addPercent (Number (Integral 100)) (Integral 50) = Inr 150 \<and>
   addPercent (Number (Integral 100)) (Integral 100) = Inr 200 \<and>
   addPercent (Number (Integral 200)) (Integral (- 100)) = Inr 0 \<and>
   addPercent (Number (Integral 200)) (Integral (- 150)) = Inr (- 100)"
proof -
  have "addPercent number (Integral percent) =
          Inr (base + sgn (base * percent) * (\<bar>base * percent\<bar> div 100))"
    if "toBigInt number = Inr base"
    using that by (simp add: addPercent_def toBigInt_def bigint_divide_def signed_divide_int_def)
  moreover have "addPercent (Number (Integral 100)) (Integral 50) = Inr 150"
    by (simp add: addPercent_def bigint_divide_def signed_divide_int_def)
  moreover have "addPercent (Number (Integral 100)) (Integral 100) = Inr 200"
    by (simp add: addPercent_def bigint_divide_def signed_divide_int_def)
  moreover have "addPercent (Number (Integral 200)) (Integral (- 100)) = Inr 0"
    by (simp add: addPercent_def bigint_divide_def signed_divide_int_def)
  moreover have "addPercent (Number (Integral 200)) (Integral (- 150)) = Inr (- 100)"
    by (simp add: addPercent_def bigint_divide_def signed_divide_int_def)
  ultimately show ?thesis by blast
qed

text \<open>
  At base -1 and 50 percent the quotient -50 / 100 is 0, where the division that rounds
  down gives -1.
\<close>

theorem addPercent_truncates_witness:
  "toBigInt (BigInt (- 1)) = Inr (- 1) \<and> addPercent (BigInt (- 1)) (Integral 50) = Inr (- 1) \<and>
   (- 1) + ((- 1) * 50) div 100 = (- 2 :: int)"
proof -
  have h: "toBigInt (BigInt (- 1)) = Inr (- 1)" by (simp add: toBigInt_def)
  have "addPercent (BigInt (- 1)) (Integral 50) = Inr (- 1)"
    using addPercent_truncates[of "BigInt (- 1)" "- 1" 50] h by simp
  with h show ?thesis by simp
qed

text \<open>
  Claim C9. When the three values convert to integers, \<^verbatim>\<open>assertInRange\<close> returns
  without a result if the value is within the inclusive bounds, and throws otherwise; the
  message of the error holds the label, or reads \<^verbatim>\<open>invalid length\<close> when the call gives
  no label or an empty one.
\<close>

theorem assertInRange_bounds:
  assumes "toBigInt input = Inr v" and "toBigInt lowerBound = Inr lo"
    and "toBigInt upperBound = Inr hi"
  shows "(lo \<le> v \<and> v \<le> hi \<longrightarrow> assertInRange input lowerBound upperBound label = Inr ()) \<and>
         (v < lo \<or> hi < v \<longrightarrow>
            assertInRange input lowerBound upperBound None =
              Inl (Error ''Message not signable, invalid length.'') \<and>
            assertInRange input lowerBound upperBound (Some []) =
              Inl (Error ''Message not signable, invalid length.'') \<and>
            (name \<noteq> [] \<longrightarrow> assertInRange input lowerBound upperBound (Some name) =
              Inl (Error (''Message not signable, invalid '' @ name @ '' length.''))))"
  using assms by (auto simp: assertInRange_def assert_def toBigInt_def Let_def)

theorem assertInRange_bounds_witness:
  "toBigInt (Number (Integral 25)) = Inr 25 \<and> toBigInt (Number (Integral 10)) = Inr 10 \<and>
   toBigInt (Number (Integral 5)) = Inr 5 \<and> toBigInt (Number (Integral 20)) = Inr 20 \<and>
   assertInRange (Number (Integral 25)) (Number (Integral 5)) (Number (Integral 20)) (Some ''value'') =
     Inl (Error ''Message not signable, invalid value length.'') \<and>
   assertInRange (Number (Integral 25)) (Number (Integral 5)) (Number (Integral 20)) None =
     Inl (Error ''Message not signable, invalid length.'') \<and>
   assertInRange (Number (Integral 10)) (Number (Integral 5)) (Number (Integral 20)) None = Inr ()"
proof -
  have h: "toBigInt (Number (Integral 25)) = Inr 25" "toBigInt (Number (Integral 10)) = Inr 10"
    "toBigInt (Number (Integral 5)) = Inr 5" "toBigInt (Number (Integral 20)) = Inr 20"
    by (simp_all add: toBigInt_def)
  have "assertInRange (Number (Integral 25)) (Number (Integral 5)) (Number (Integral 20)) (Some ''value'') =
     Inl (Error ''Message not signable, invalid value length.'')"
    using assertInRange_bounds[OF h(1) h(3) h(4), of None "''value''"] by simp
  moreover have "assertInRange (Number (Integral 25)) (Number (Integral 5)) (Number (Integral 20)) None =
     Inl (Error ''Message not signable, invalid length.'')"
    using assertInRange_bounds[OF h(1) h(3) h(4), of None "''value''"] by simp
  moreover have "assertInRange (Number (Integral 10)) (Number (Integral 5)) (Number (Integral 20)) None = Inr ()"
    using assertInRange_bounds[OF h(2) h(3) h(4), of None "''value''"] by simp
  ultimately show ?thesis using h by simp
qed

section \<open>Claims about \<^verbatim>\<open>cleanHex\<close>\<close>

lemma toLowerCase_char_idem: "toLowerCase_char (toLowerCase_char c) = toLowerCase_char c"
  by (auto simp: toLowerCase_char_def Let_def)

lemma toLowerCase_idem: "toLowerCase (toLowerCase s) = toLowerCase s"
  by (simp add: toLowerCase_def toLowerCase_char_idem)

lemma toLowerCase_char_X: "toLowerCase_char (CHR ''X'') = CHR ''x''"
  by code_simp

lemma toLowerCase_prefix_chars:
  "toLowerCase_char (CHR ''0'') = CHR ''0''" "toLowerCase_char (CHR ''x'') = CHR ''x''"
  "toLowerCase_char (CHR ''X'') = CHR ''x''"
  by (simp_all add: toLowerCase_char_def toLowerCase_char_X[unfolded toLowerCase_char_def, simplified])

lemma replace_leading_zeros_prefixed:
  "replace_leading_zeros (''0x'' @ r) = ''0x'' @ dropWhile (\<lambda>c. c = CHR ''0'') r"
  by (cases r) simp_all

lemma map_fixed: "map f xs = xs \<longleftrightarrow> (\<forall>x\<in>set xs. f x = x)"
  by (induction xs) auto

lemma set_replace_leading_zeros: "set (replace_leading_zeros s) \<subseteq> set s"
proof (cases s rule: replace_leading_zeros.cases)
  case (1 c0 c1 c2 rest)
  have "set (dropWhile (\<lambda>c. c = CHR ''0'') rest) \<subseteq> set rest"
    by (auto dest: set_dropWhileD)
  with 1 show ?thesis by auto
qed simp_all

lemma toLowerCase_replace_leading_zeros:
  assumes "toLowerCase s = s"
  shows "toLowerCase (replace_leading_zeros s) = replace_leading_zeros s"
proof -
  from assms have "\<forall>c\<in>set s. toLowerCase_char c = c"
    by (simp only: toLowerCase_def map_fixed)
  with set_replace_leading_zeros[of s]
  have "\<forall>c\<in>set (replace_leading_zeros s). toLowerCase_char c = c" by blast
  then show ?thesis by (simp only: toLowerCase_def map_fixed)
qed

lemma replace_leading_zeros_idem:
  "replace_leading_zeros (replace_leading_zeros s) = replace_leading_zeros s"
proof (cases s rule: replace_leading_zeros.cases)
  case (1 c0 c1 c2 rest)
  show ?thesis
  proof (cases "c0 = CHR ''0'' \<and> c1 = CHR ''x'' \<and> c2 = CHR ''0''")
    case True
    have "replace_leading_zeros (''0x'' @ dropWhile (\<lambda>c. c = CHR ''0'') rest) =
            ''0x'' @ dropWhile (\<lambda>c. c = CHR ''0'') rest"
      by (simp only: replace_leading_zeros_prefixed dropWhile_idem)
    with 1 True show ?thesis by simp
  next
    case False
    with 1 show ?thesis by auto
  qed
qed simp_all

text \<open>
  Claim C5, amended. For every hex string, \<^verbatim>\<open>cleanHex\<close> returns the prefix \<^verbatim>\<open>0x\<close> and the
  lower-cased digits without every leading \<^verbatim>\<open>0\<close>; no \<^verbatim>\<open>0\<close> is kept for the value zero,
  so a hex string of zeros only cleans to the bare prefix \<^verbatim>\<open>0x\<close>.
\<close>

theorem cleanHex_strips_zeros:
  assumes "isHex hex"
  shows "cleanHex hex = ''0x'' @ dropWhile (\<lambda>c. c = CHR ''0'') (toLowerCase (drop 2 hex)) \<and>
         (set (drop 2 hex) \<subseteq> {CHR ''0''} \<longrightarrow> cleanHex hex = ''0x'')"
proof -
  from assms obtain c1 rest where hex: "hex = CHR ''0'' # c1 # rest"
    and c1: "c1 = CHR ''x'' \<or> c1 = CHR ''X''"
    by (cases hex rule: isHex.cases) auto
  have "toLowerCase hex = ''0x'' @ toLowerCase rest"
    using c1 by (auto simp: hex toLowerCase_def toLowerCase_prefix_chars)
  then have eq: "cleanHex hex = ''0x'' @ dropWhile (\<lambda>c. c = CHR ''0'') (toLowerCase (drop 2 hex))"
    by (simp only: cleanHex_def replace_leading_zeros_prefixed) (simp add: hex)
  moreover have "cleanHex hex = ''0x''" if "set (drop 2 hex) \<subseteq> {CHR ''0''}"
  proof -
    have "\<forall>c\<in>set (toLowerCase (drop 2 hex)). c = CHR ''0''"
      using that by (auto simp: toLowerCase_def toLowerCase_prefix_chars)
    then have "dropWhile (\<lambda>c. c = CHR ''0'') (toLowerCase (drop 2 hex)) = []" by simp
    with eq show ?thesis by simp
  qed
  ultimately show ?thesis by blast
qed

theorem cleanHex_strips_zeros_witness:
  "isHex ''0x00023AB'' \<and> cleanHex ''0x00023AB'' = ''0x23ab'' \<and>
   isHex ''0X00'' \<and> set (drop 2 ''0X00'') \<subseteq> {CHR ''0''} \<and> cleanHex ''0X00'' = ''0x''"
proof -
  have h: "isHex ''0x00023AB''" "isHex ''0X00''" by code_simp+
  have z: "set (drop 2 ''0X00'') \<subseteq> {CHR ''0''}" by simp
  have "dropWhile (\<lambda>c. c = CHR ''0'') (toLowerCase (drop 2 ''0x00023AB'')) = ''23ab''" by code_simp
  with cleanHex_strips_zeros[OF h(1)] have "cleanHex ''0x00023AB'' = ''0x23ab''" by simp
  moreover have "cleanHex ''0X00'' = ''0x''" using cleanHex_strips_zeros[OF h(2)] z by blast
  ultimately show ?thesis using h z by simp
qed

theorem cleanHex_zero_counterexample:
  "isHex ''0x000'' \<and> cleanHex ''0x000'' = ''0x'' \<and> cleanHex ''0x000'' \<noteq> ''0x0''"
  by code_simp

text \<open>
  Claim C6. \<^verbatim>\<open>cleanHex\<close> is idempotent, on every string and so on every hex string.
\<close>

theorem cleanHex_idempotent: "cleanHex (cleanHex x) = cleanHex x"
proof -
  have "toLowerCase (replace_leading_zeros (toLowerCase x)) = replace_leading_zeros (toLowerCase x)"
    by (rule toLowerCase_replace_leading_zeros) (rule toLowerCase_idem)
  then show ?thesis by (simp add: cleanHex_def replace_leading_zeros_idem)
qed

section \<open>Claims about \<^verbatim>\<open>hexToBytes\<close>, \<^verbatim>\<open>getDecimalString\<close> and \<^verbatim>\<open>getHexString\<close>\<close>

lemma asciiToBase16_hex: "is_hex_digit c \<Longrightarrow> \<exists>d. asciiToBase16 c = Some d"
  by (auto simp: is_hex_digit_def asciiToBase16_def Let_def)

lemma decode_pairs_hex:
  "list_all is_hex_digit s \<Longrightarrow> even (length s) \<Longrightarrow>
   \<exists>bytes. decode_pairs s = Some bytes \<and> 2 * length bytes = length s"
proof (induction s rule: decode_pairs.induct)
  case 1
  show ?case by simp
next
  case (2 a b rest)
  obtain n1 n2 where n: "asciiToBase16 a = Some n1" "asciiToBase16 b = Some n2"
    using 2(2) asciiToBase16_hex[of a] asciiToBase16_hex[of b] by auto
  have rest: "list_all is_hex_digit rest" "even (length rest)" using 2(2,3) by simp_all
  obtain bytes where "decode_pairs rest = Some bytes" "2 * length bytes = length rest"
    using 2(1)[OF refl n rest] by blast
  with n show ?case by simp
next
  case (3 a)
  then show ?case by simp
qed

lemma is_hex_digit_zero: "is_hex_digit (CHR ''0'')"
  by (simp add: is_hex_digit_def)

lemma asciiToBase16_digit_value:
  "asciiToBase16 c = Some d \<Longrightarrow> digit_value c = Some d \<and> d < 16"
  by (auto simp: asciiToBase16_def digit_value_def Let_def split: if_splits)

lemma decode_pairs_nth:
  "decode_pairs s = Some bytes \<Longrightarrow> i < length bytes \<Longrightarrow>
   \<exists>hi lo. digit_value (s ! (2 * i)) = Some hi \<and> digit_value (s ! (2 * i + 1)) = Some lo \<and>
           bytes ! i = of_nat (16 * hi + lo)"
proof (induction s arbitrary: bytes i rule: decode_pairs.induct)
  case 1
  then show ?case by simp
next
  case (2 a b rest)
  from 2(2) obtain n1 n2 bs where n: "asciiToBase16 a = Some n1" "asciiToBase16 b = Some n2"
    and bs: "decode_pairs rest = Some bs" and bytes: "bytes = of_nat (n1 * 16 + n2) # bs"
    by (auto split: option.splits)
  show ?case
  proof (cases i)
    case 0
    then show ?thesis
      using n bytes asciiToBase16_digit_value[of a n1] asciiToBase16_digit_value[of b n2]
      by (simp add: mult.commute)
  next
    case (Suc j)
    then have "j < length bs" using 2(3) bytes by simp
    from 2(1)[OF refl n bs this] show ?thesis using Suc bytes by simp
  qed
next
  case (3 a)
  then show ?case by simp
qed

lemma unat_byte: "k < 256 \<Longrightarrow> unat (of_nat k :: 8 word) = k"
proof -
  assume "k < 256"
  have "unat (of_nat k :: 8 word) = k mod 2 ^ LENGTH(8)" by (rule unat_of_nat)
  with \<open>k < 256\<close> show ?thesis by simp
qed

lemma decode_pairs_value:
  "decode_pairs s = Some bytes \<Longrightarrow>
   parse_digits 16 acc s = Some (foldl (\<lambda>a b. a * 256 + unat b) acc bytes)"
proof (induction s arbitrary: bytes acc rule: decode_pairs.induct)
  case 1
  then show ?case by simp
next
  case (2 a b rest)
  from 2(2) obtain n1 n2 bs where n: "asciiToBase16 a = Some n1" "asciiToBase16 b = Some n2"
    and bs: "decode_pairs rest = Some bs" and bytes: "bytes = of_nat (n1 * 16 + n2) # bs"
    by (auto split: option.splits)
  define k where "k = n1 * 16 + n2"
  have d: "digit_value a = Some n1" "n1 < 16" "digit_value b = Some n2" "n2 < 16"
    using n asciiToBase16_digit_value by blast+
  then have "k < 256" by (simp add: k_def)
  then have u: "unat (of_nat k :: 8 word) = k" by (rule unat_byte)
  have "parse_digits 16 acc (a # b # rest) = parse_digits 16 ((acc * 16 + n1) * 16 + n2) rest"
    using d by simp
  also have "(acc * 16 + n1) * 16 + n2 = acc * 256 + k" by (simp add: k_def)
  also have "parse_digits 16 (acc * 256 + k) rest =
      Some (foldl (\<lambda>a b. a * 256 + unat b) (acc * 256 + k) bs)"
    using 2(1)[OF refl n bs] .
  finally show ?case unfolding bytes k_def[symmetric] by (simp add: u)
next
  case (3 a)
  then show ?case by simp
qed

lemma padded_digits_hex:
  "isHex str \<Longrightarrow> list_all is_hex_digit (padded_digits str) \<and> even (length (padded_digits str))"
  using isHex_digits[of str] by (simp add: padded_digits_def is_hex_digit_zero)

lemma length_padded_digits: "length (padded_digits str) = 2 * ((length str - 2 + 1) div 2)"
  by (simp add: padded_digits_def) presburger

lemma hexToBytes_padded: "isHex str \<Longrightarrow> hexToBytes str = hexToBytesNoble (padded_digits str)"
  by (auto simp: hexToBytes_def padded_digits_def removeHexPrefix_isHex Let_def
      even_iff_mod_2_eq_zero)

lemma parse_digits_padded:
  "parse_digits 16 0 (padded_digits str) = parse_digits 16 0 (drop 2 str)"
  by (simp add: padded_digits_def digit_value_def)


text \<open>
  Claim C7. \<^verbatim>\<open>hexToBytes\<close> throws the error \<^verbatim>\<open>needs to be a hex-string\<close> exactly when its
  input does not match the hex pattern. For every input that matches it returns the bytes
  of the digits after the prefix, with one \<^verbatim>\<open>0\<close> put in front of an odd number of digits:
  one byte for every two digits, byte \<open>i\<close> being 16 times the value of digit \<open>2 i\<close> plus the
  value of digit \<open>2 i + 1\<close>, so that the bytes denote the number the digits denote. So
  \<^verbatim>\<open>hexToBytes("0xa")\<close> is \<^verbatim>\<open>hexToBytes("0x0a")\<close>, and \<^verbatim>\<open>hexToBytes("0x64")\<close> is the
  single byte 100.
\<close>

theorem hexToBytes_hex_only:
  "(if isHex str
    then \<exists>bytes n. hexToBytes str = Inr bytes \<and> length bytes = (length str - 2 + 1) div 2 \<and>
           (\<forall>i<length bytes. \<exists>hi lo.
              digit_value (padded_digits str ! (2 * i)) = Some hi \<and>
              digit_value (padded_digits str ! (2 * i + 1)) = Some lo \<and>
              bytes ! i = of_nat (16 * hi + lo)) \<and>
           parse_digits 16 0 (drop 2 str) = Some n \<and> bytes_value bytes = n
    else hexToBytes str = Inl (Error (str @ '' needs to be a hex-string''))) \<and>
   (isHex (''0x'' @ ds) \<and> odd (length ds) \<longrightarrow> hexToBytes (''0x'' @ ds) = hexToBytes (''0x0'' @ ds)) \<and>
   hexToBytes ''0xa'' = hexToBytes ''0x0a'' \<and>
   hexToBytes ''0x64'' = Inr [100]"
proof -
  have "\<exists>bytes n. hexToBytes str = Inr bytes \<and> length bytes = (length str - 2 + 1) div 2 \<and>
           (\<forall>i<length bytes. \<exists>hi lo.
              digit_value (padded_digits str ! (2 * i)) = Some hi \<and>
              digit_value (padded_digits str ! (2 * i + 1)) = Some lo \<and>
              bytes ! i = of_nat (16 * hi + lo)) \<and>
           parse_digits 16 0 (drop 2 str) = Some n \<and> bytes_value bytes = n"
    if hex: "isHex str"
  proof -
    let ?p = "padded_digits str"
    have p: "list_all is_hex_digit ?p" "even (length ?p)"
      using padded_digits_hex[OF hex] by simp_all
    then obtain bytes where dec: "decode_pairs ?p = Some bytes" and len: "2 * length bytes = length ?p"
      using decode_pairs_hex[of ?p] by blast
    have res: "hexToBytes str = Inr bytes"
      using p(2) dec by (simp add: hexToBytes_padded[OF hex] hexToBytesNoble_def even_iff_mod_2_eq_zero)
    have count: "length bytes = (length str - 2 + 1) div 2"
      using len length_padded_digits[of str] by simp
    have pairs: "\<forall>i<length bytes. \<exists>hi lo.
              digit_value (?p ! (2 * i)) = Some hi \<and> digit_value (?p ! (2 * i + 1)) = Some lo \<and>
              bytes ! i = of_nat (16 * hi + lo)"
      using decode_pairs_nth[OF dec] by blast
    have "parse_digits 16 0 (drop 2 str) = Some (bytes_value bytes)"
      using decode_pairs_value[OF dec, of 0] by (simp add: parse_digits_padded bytes_value_def)
    with res count pairs show ?thesis by blast
  qed
  moreover have "hexToBytes str = Inl (Error (str @ '' needs to be a hex-string''))"
    if "\<not> isHex str"
    using that by (simp add: hexToBytes_def)
  moreover have "hexToBytes (''0x'' @ ds) = hexToBytes (''0x0'' @ ds)"
    if "isHex (''0x'' @ ds)" "odd (length ds)"
  proof -
    have "length ds mod 2 \<noteq> 0" "Suc (length ds) mod 2 = 0" using that(2) by presburger+
    then show ?thesis using that(1) by (simp add: hexToBytes_def is_hex_digit_zero)
  qed
  moreover have "hexToBytes ''0xa'' = hexToBytes ''0x0a''"
    by (simp add: hexToBytes_def is_hex_digit_def)
  moreover have "hexToBytes ''0x64'' = Inr [100]"
    by (simp add: hexToBytes_def hexToBytesNoble_def asciiToBase16_def is_hex_digit_def)
  ultimately show ?thesis by presburger
qed

theorem hexToBytes_hex_only_witness:
  "isHex ''0xabc'' \<and> odd (length ''abc'') \<and> \<not> isHex ''test'' \<and>
   hexToBytes ''0xabc'' = hexToBytes ''0x0abc'' \<and>
   hexToBytes ''0xabc'' = Inr [10, 188] \<and> bytes_value [10, 188] = 2748 \<and>
   parse_digits 16 0 ''abc'' = Some 2748 \<and>
   hexToBytes ''test'' = Inl (Error ''test needs to be a hex-string'')"
proof -
  have h: "isHex ''0xabc''" "\<not> isHex ''test''" by code_simp+
  have pd: "padded_digits ''0xabc'' = ''0abc''" by (simp add: padded_digits_def)
  have dv: "digit_value (CHR ''0'') = Some 0" "digit_value (CHR ''a'') = Some 10"
    "digit_value (CHR ''b'') = Some 11" "digit_value (CHR ''c'') = Some 12"
    by (simp_all add: digit_value_def)
  have pv: "parse_digits 16 0 ''abc'' = Some 2748" by (simp add: dv)
  have "hexToBytes ''0xabc'' = hexToBytes ''0x0abc''"
    using hexToBytes_hex_only[of "''test''" "''abc''"] h(1) by simp
  moreover have bytes: "hexToBytes ''0xabc'' = Inr [10, 188]"
  proof -
    have "\<exists>bytes n. hexToBytes ''0xabc'' = Inr bytes \<and>
           length bytes = (length ''0xabc'' - 2 + 1) div 2 \<and>
           (\<forall>i<length bytes. \<exists>hi lo.
              digit_value (padded_digits ''0xabc'' ! (2 * i)) = Some hi \<and>
              digit_value (padded_digits ''0xabc'' ! (2 * i + 1)) = Some lo \<and>
              bytes ! i = of_nat (16 * hi + lo)) \<and>
           parse_digits 16 0 (drop 2 ''0xabc'') = Some n \<and> bytes_value bytes = n"
      using conjunct1[OF hexToBytes_hex_only[of "''0xabc''" "''abc''"]] h(1)
      by (simp only: if_True)
    then obtain bytes where res: "hexToBytes ''0xabc'' = Inr bytes"
      and len: "length bytes = (length ''0xabc'' - 2 + 1) div 2"
      and pairs: "\<And>i. i < length bytes \<Longrightarrow> \<exists>hi lo.
              digit_value (padded_digits ''0xabc'' ! (2 * i)) = Some hi \<and>
              digit_value (padded_digits ''0xabc'' ! (2 * i + 1)) = Some lo \<and>
              bytes ! i = of_nat (16 * hi + lo)"
      by (elim exE conjE) (rule that, assumption+, simp)
    have l2: "length bytes = 2" using len by simp
    then obtain b0 b1 where b: "bytes = [b0, b1]"
      by (cases bytes; cases "tl bytes") auto
    obtain hi lo where "digit_value (''0abc'' ! (2 * 0)) = Some hi"
      "digit_value (''0abc'' ! (2 * 0 + 1)) = Some lo" "bytes ! 0 = of_nat (16 * hi + lo)"
      using pairs[of 0] l2 unfolding pd by auto
    then have b0: "b0 = 10" by (simp add: dv b)
    obtain hi' lo' where "digit_value (''0abc'' ! (2 * 1)) = Some hi'"
      "digit_value (''0abc'' ! (2 * 1 + 1)) = Some lo'" "bytes ! 1 = of_nat (16 * hi' + lo')"
      using pairs[of 1] l2 unfolding pd by auto
    then have b1: "b1 = 188" by (simp add: dv b)
    show ?thesis using res b b0 b1 by simp
  qed
  moreover have "bytes_value [10, 188] = 2748" by (simp add: bytes_value_def)
  moreover have "hexToBytes ''test'' = Inl (Error ''test needs to be a hex-string'')"
    using hexToBytes_hex_only[of "''test''" "''abc''"] h(2) by simp
  ultimately show ?thesis using h pv by simp
qed

lemma isHex_not_whole: "isHex str \<Longrightarrow> \<not> isStringWholeNumber str"
  by (cases str rule: isHex.cases) (auto simp: isStringWholeNumber_def is_dec_digit_def)

lemma hexToDecimalString_isHex:
  assumes "isHex str"
  shows "hexToDecimalString str =
           (case parse_nat 16 (drop 2 str) of
              None \<Rightarrow> Inl SyntaxError
            | Some n \<Rightarrow> Inr (to_digits 10 n))"
proof -
  have "StringToBigInt (''0x'' @ drop 2 str) = map_option int (parse_nat 16 (drop 2 str))"
    using isHex_digits[OF assms] by (rule StringToBigInt_hex)
  then show ?thesis
    by (simp add: hexToDecimalString_def addHexPrefix_isHex[OF assms] bigint_toString_def
        split: option.split)
qed

text \<open>
  Claim C8, amended. \<^verbatim>\<open>getDecimalString\<close> and \<^verbatim>\<open>getHexString\<close> throw the error
  \<^verbatim>\<open>needs to be a hex-string or whole-number-string\<close> exactly when the input matches neither
  the hex pattern nor the whole-number pattern. Of a hex string with at least one digit,
  \<^verbatim>\<open>getDecimalString\<close> returns the decimal string of the value the digits denote; of the
  bare prefix it throws the \<^verbatim>\<open>SyntaxError\<close> of the conversion to a big integer; a
  whole-number string it returns as it is. \<^verbatim>\<open>getHexString\<close> returns a hex string as it
  is, and of a whole-number string the canonical hex string of its value. In particular
  \<^verbatim>\<open>getDecimalString("0x1a")\<close> is \<^verbatim>\<open>26\<close>.
\<close>

theorem getDecimalString_getHexString:
  "(\<not> isHex str \<and> \<not> isStringWholeNumber str \<longrightarrow>
      getDecimalString str = Inl (Error (str @ '' needs to be a hex-string or whole-number-string'')) \<and>
      getHexString str = Inl (Error (str @ '' needs to be a hex-string or whole-number-string''))) \<and>
   (isHex str \<or> isStringWholeNumber str \<longrightarrow>
      (\<forall>msg. getDecimalString str \<noteq> Inl (Error msg)) \<and> (\<forall>msg. getHexString str \<noteq> Inl (Error msg))) \<and>
   (isHex str \<and> 2 < length str \<longrightarrow>
      (\<exists>n. parse_nat 16 (drop 2 str) = Some n \<and>
           getDecimalString str = Inr (bigint_toString 10 (int n)) \<and>
           parse_nat 10 (bigint_toString 10 (int n)) = Some n)) \<and>
   (isHex str \<and> length str = 2 \<longrightarrow> getDecimalString str = Inl SyntaxError) \<and>
   (isHex str \<longrightarrow> getHexString str = Inr str) \<and>
   (isStringWholeNumber str \<longrightarrow>
      getDecimalString str = Inr str \<and>
      (\<exists>n h. parse_nat 10 str = Some n \<and> getHexString str = Inr h \<and> canonical_hex h \<and>
             parse_nat 16 (drop 2 h) = Some n)) \<and>
   getDecimalString ''0x1a'' = Inr ''26''"
proof -
  have neither: "getDecimalString str = Inl (Error (str @ '' needs to be a hex-string or whole-number-string'')) \<and>
      getHexString str = Inl (Error (str @ '' needs to be a hex-string or whole-number-string''))"
    if "\<not> isHex str" "\<not> isStringWholeNumber str"
    using that by (simp add: getDecimalString_def getHexString_def)
  have hex_digits: "\<exists>n. parse_nat 16 (drop 2 str) = Some n \<and>
           getDecimalString str = Inr (bigint_toString 10 (int n)) \<and>
           parse_nat 10 (bigint_toString 10 (int n)) = Some n"
    if hex: "isHex str" and len: "2 < length str"
  proof -
    obtain n where "parse_digits 16 0 (drop 2 str) = Some n"
      using parse_digits_hex[OF isHex_digits[OF hex]] by blast
    then have n: "parse_nat 16 (drop 2 str) = Some n" using len by (simp add: parse_nat_def)
    then have "getDecimalString str = Inr (bigint_toString 10 (int n))"
      using hex by (simp add: getDecimalString_def hexToDecimalString_isHex bigint_toString_def)
    moreover have "parse_nat 10 (bigint_toString 10 (int n)) = Some n"
      by (simp add: bigint_toString_def parse_nat_to_digits)
    ultimately show ?thesis using n by blast
  qed
  have bare: "getDecimalString str = Inl SyntaxError" if hex: "isHex str" and len: "length str = 2"
    using that by (simp add: getDecimalString_def hexToDecimalString_isHex parse_nat_def)
  have hex_as_is: "getHexString str = Inr str" if "isHex str"
    using that by (simp add: getHexString_def)
  have whole: "getDecimalString str = Inr str \<and>
      (\<exists>n h. parse_nat 10 str = Some n \<and> getHexString str = Inr h \<and> canonical_hex h \<and>
             parse_nat 16 (drop 2 h) = Some n)"
    if whole: "isStringWholeNumber str"
  proof -
    have nohex: "\<not> isHex str" using whole isHex_not_whole by blast
    from whole have ne: "str \<noteq> []" and all: "list_all is_dec_digit str"
      by (simp_all add: isStringWholeNumber_def)
    obtain n where n: "parse_digits 10 0 str = Some n" using parse_digits_dec[OF all] by blast
    have big: "toBigInt (String str) = Inr (int n)"
      by (simp add: toBigInt_def StringToBigInt_whole[OF whole] n)
    obtain h where h: "toHex (String str) = Inr h" "canonical_hex h"
      "parse_nat 16 (drop 2 h) = Some (nat (int n))"
      using toHex_nonneg_canonical[OF big] by auto
    have "getHexString str = Inr h"
      using nohex whole h(1) by (simp add: getHexString_def toHexString_def)
    moreover have "parse_nat 10 str = Some n" using n ne by (simp add: parse_nat_def)
    moreover have "getDecimalString str = Inr str"
      using nohex whole by (simp add: getDecimalString_def)
    ultimately show ?thesis using h by auto
  qed
  have either: "(\<forall>msg. getDecimalString str \<noteq> Inl (Error msg)) \<and> (\<forall>msg. getHexString str \<noteq> Inl (Error msg))"
    if "isHex str \<or> isStringWholeNumber str"
  proof (cases "isHex str")
    case True
    have "length str = 2 \<or> 2 < length str" using True by (cases str rule: isHex.cases) auto
    then show ?thesis using hex_digits bare hex_as_is[OF True] True by auto
  next
    case False
    then show ?thesis using whole that by auto
  qed
  have example: "getDecimalString ''0x1a'' = Inr ''26''" by code_simp
  show ?thesis using neither either hex_digits bare hex_as_is whole example by blast
qed

theorem getDecimalString_getHexString_witness:
  "isHex ''0xC8'' \<and> 2 < length ''0xC8'' \<and> getHexString ''0xC8'' = Inr ''0xC8'' \<and>
   getDecimalString ''0xC8'' = Inr ''200'' \<and>
   \<not> isHex ''Hello'' \<and> \<not> isStringWholeNumber ''Hello'' \<and>
   getDecimalString ''Hello'' = Inl (Error ''Hello needs to be a hex-string or whole-number-string'') \<and>
   isStringWholeNumber ''123'' \<and> getDecimalString ''123'' = Inr ''123'' \<and>
   (\<exists>h. getHexString ''123'' = Inr h \<and> canonical_hex h \<and> parse_nat 16 (drop 2 h) = Some 123) \<and>
   isHex ''0X'' \<and> length ''0X'' = 2 \<and> getDecimalString ''0X'' = Inl SyntaxError"
proof -
  have h: "isHex ''0xC8''" "\<not> isHex ''Hello''" "\<not> isStringWholeNumber ''Hello''"
    "isStringWholeNumber ''123''" "isHex ''0X''"
    by code_simp+
  have p: "parse_nat 16 (drop 2 ''0xC8'') = Some 200" by code_simp
  have q: "parse_nat 10 ''123'' = Some 123" by code_simp
  have s: "bigint_toString 10 (int 200) = ''200''" by code_simp
  have "getHexString ''0xC8'' = Inr ''0xC8''"
    using getDecimalString_getHexString[of "''0xC8''"] h(1) by blast
  moreover have "getDecimalString ''0xC8'' = Inr ''200''"
    using getDecimalString_getHexString[of "''0xC8''"] h(1) p s by auto
  moreover have "getDecimalString ''Hello'' = Inl (Error ''Hello needs to be a hex-string or whole-number-string'')"
    using getDecimalString_getHexString[of "''Hello''"] h(2,3) by simp
  moreover have "getDecimalString ''123'' = Inr ''123''"
    using getDecimalString_getHexString[of "''123''"] h(4) by blast
  moreover have "\<exists>h. getHexString ''123'' = Inr h \<and> canonical_hex h \<and> parse_nat 16 (drop 2 h) = Some 123"
    using getDecimalString_getHexString[of "''123''"] h(4) q by auto
  moreover have "getDecimalString ''0X'' = Inl SyntaxError"
    using getDecimalString_getHexString[of "''0X''"] h(5) by simp
  ultimately show ?thesis using h by simp
qed

theorem getDecimalString_bare_prefix_counterexample:
  "isHex ''0x'' \<and> getDecimalString ''0x'' = Inl SyntaxError"
  by code_simp

section \<open>Claim about \<^verbatim>\<open>isBigNumberish\<close>\<close>

text \<open>
  Claim C10. The string \<^verbatim>\<open>0x\<close> matches the hex pattern, so \<^verbatim>\<open>isBigNumberish\<close> accepts it,
  and \<^verbatim>\<open>toBigInt\<close> throws a \<^verbatim>\<open>SyntaxError\<close> on it: a string that \<^verbatim>\<open>isBigNumberish\<close>
  accepts need not be one that \<^verbatim>\<open>toBigInt\<close> converts.
\<close>

theorem isBigNumberish_not_sufficient:
  "isHex ''0x'' \<and> isBigNumberish (of_BigNumberish (String ''0x'')) \<and>
   toBigInt (String ''0x'') = Inl SyntaxError \<and>
   (\<exists>s. isBigNumberish (of_BigNumberish (String s)) \<and> (\<exists>e. toBigInt (String s) = Inl e))"
proof -
  have "isHex ''0x''" "isBigNumberish (of_BigNumberish (String ''0x''))"
    "toBigInt (String ''0x'') = Inl SyntaxError"
    by code_simp+
  then show ?thesis by blast
qed

end
